theory Spec2Isabelle
  imports Main
begin

section \<open>Google Calendar event devices: the data model\<close>

text \<open>
  The module \<^verbatim>\<open>homeassistant/components/google/calendar.py\<close> asks a remote calendar
  service for events, drops the events that do not block time, and keeps either the whole
  filtered list (the ranged fetch) or only the next event (the throttled poll).

  Python values that travel through the module (the values of an event record and of the
  query parameters) are JSON-like.
\<close>

datatype pyval =
    PNone
  | PBool bool
  | PInt int
  | PStr string
  | PList "pyval list"
  | PDict "(string \<times> pyval) list"

text \<open>
  An event is a \<^verbatim>\<open>dict[str, Any]\<close> decoded from the remote answer: a list of key and value
  pairs, read with \<^const>\<open>map_of\<close>. The query parameters are a \<^verbatim>\<open>dict[str, Any]\<close> built by
  the module itself: a map.
\<close>

type_synonym event = "(string \<times> pyval) list"

type_synonym params = "string \<rightharpoonup> pyval"

text \<open>
  The exceptions of the client library. The module names one of them,
  \<^verbatim>\<open>ServerNotFoundError\<close>; every other one is carried by \<open>OtherError\<close>.
\<close>

datatype error = ServerNotFoundError | OtherError string

text \<open>
  The answer of one \<^verbatim>\<open>events.list(**params).execute()\<close>: a dict of which the module reads
  the keys \<^verbatim>\<open>items\<close> and \<^verbatim>\<open>nextPageToken\<close>, each possibly absent.
\<close>

record result =
  items :: "event list option"
  nextPageToken :: "string option"

text \<open>
  The remote calendar service is outside the module. What the module does to it is a
  sequence of calls; what it answers may depend on every call made so far. The resource
  objects of the client library carry no data of their own here.
\<close>

datatype resource = Resource

datatype call = ServiceGet | EventsList params

record remote =
  service_get :: "call list \<Rightarrow> error option"
  list_execute :: "call list \<Rightarrow> params \<Rightarrow> error + result"

text \<open>
  \<open>service_get rem log\<close> is the outcome of \<^verbatim>\<open>calendar_service.get()\<close> after the calls
  \<open>log\<close>: \<open>None\<close> when a service resource comes back, \<open>Some e\<close> when \<open>e\<close> is raised.
  \<open>list_execute rem log p\<close> is the outcome of \<^verbatim>\<open>events.list(**p).execute()\<close> after the
  calls \<open>log\<close>.
\<close>

record GoogleCalendarData =
  calendar_id :: string
  search :: "string option"
  ignore_availability :: bool
  event :: "event option"

record GoogleCalendarEventDevice =
  data :: GoogleCalendarData
  dev_event :: "event option"
  name :: string
  offset :: string
  offset_reached :: bool
  entity_id :: string

subsection \<open>Constants of the module\<close>

definition DEFAULT_GOOGLE_SEARCH_PARAMS :: params where
  "DEFAULT_GOOGLE_SEARCH_PARAMS =
     [''orderBy'' \<mapsto> PStr ''startTime'', ''singleEvents'' \<mapsto> PBool True]"

text \<open>\<^verbatim>\<open>timedelta(minutes=15)\<close>, in microseconds, the resolution of a timedelta.\<close>

definition MIN_TIME_BETWEEN_UPDATES :: int where
  "MIN_TIME_BETWEEN_UPDATES = 15 * 60 * 1000000"

definition TRANSPARENCY :: string where
  "TRANSPARENCY = ''transparency''"

definition OPAQUE :: string where
  "OPAQUE = ''opaque''"

subsection \<open>Python helpers\<close>

text \<open>The truth value of a \<^verbatim>\<open>str | None\<close>: false for \<^verbatim>\<open>None\<close> and for the empty string.\<close>

fun truthy :: "string option \<Rightarrow> bool" where
  "truthy None = False"
| "truthy (Some s) = (s \<noteq> [])"

fun opt_str :: "string option \<Rightarrow> pyval" where
  "opt_str None = PNone"
| "opt_str (Some s) = PStr s"

text \<open>\<^verbatim>\<open>result.get("items", [])\<close>.\<close>

definition get_items :: "result \<Rightarrow> event list" where
  "get_items res = (case items res of None \<Rightarrow> [] | Some xs \<Rightarrow> xs)"

text \<open>\<^verbatim>\<open>next(it, None)\<close> on a list: the first element if there is one.\<close>

fun next_or_none :: "'a list \<Rightarrow> 'a option" where
  "next_or_none [] = None"
| "next_or_none (x # xs) = Some x"

subsection \<open>Dates and their ISO format\<close>

text \<open>
  A \<^verbatim>\<open>datetime\<close> with its fields; \<open>utcoffset\<close> is the offset of an aware datetime in
  microseconds, \<open>None\<close> for a naive one. \<open>isoformat\<close> is the standard library's
  \<^verbatim>\<open>datetime.isoformat("T")\<close>: \<^verbatim>\<open>YYYY-MM-DDTHH:MM:SS\<close>, then the microseconds when they
  are not zero, then the offset when there is one.
\<close>

record datetime =
  year :: nat
  month :: nat
  day :: nat
  hour :: nat
  minute :: nat
  second :: nat
  microsecond :: nat
  utcoffset :: "int option"

fun dec :: "nat \<Rightarrow> string" where
  "dec n = (if n < 10 then [''0123456789'' ! n]
            else dec (n div 10) @ [''0123456789'' ! (n mod 10)])"

declare dec.simps [simp del]

text \<open>\<open>fmt_d w n\<close> is \<^verbatim>\<open>"%0wd" % n\<close> for \<open>n\<close> not negative.\<close>

definition fmt_d :: "nat \<Rightarrow> nat \<Rightarrow> string" where
  "fmt_d w n = replicate (w - length (dec n)) CHR ''0'' @ dec n"

definition format_time :: "nat \<Rightarrow> nat \<Rightarrow> nat \<Rightarrow> nat \<Rightarrow> string" where
  "format_time hh mm ss us =
     fmt_d 2 hh @ '':'' @ fmt_d 2 mm @ '':'' @ fmt_d 2 ss @
     (if us \<noteq> 0 then ''.'' @ fmt_d 6 us else '''')"

definition format_offset :: "int option \<Rightarrow> string" where
  "format_offset off =
     (case off of
        None \<Rightarrow> ''''
      | Some d \<Rightarrow>
          (let sign = (if d < 0 then ''-'' else ''+'');
               a = nat \<bar>d\<bar>;
               hh = a div 3600000000;
               r = a mod 3600000000;
               mm = r div 60000000;
               ss = r mod 60000000
           in sign @ fmt_d 2 hh @ '':'' @ fmt_d 2 mm @
              (if ss \<noteq> 0
               then '':'' @ fmt_d 2 (ss div 1000000) @
                    (if ss mod 1000000 \<noteq> 0 then ''.'' @ fmt_d 6 (ss mod 1000000) else '''')
               else '''')))"

definition isoformat :: "datetime \<Rightarrow> string" where
  "isoformat d =
     fmt_d 4 (year d) @ ''-'' @ fmt_d 2 (month d) @ ''-'' @ fmt_d 2 (day d) @ ''T'' @
     format_time (hour d) (minute d) (second d) (microsecond d) @
     format_offset (utcoffset d)"

section \<open>GoogleCalendarData\<close>

text \<open>
  Every function takes the remote service and the calls made so far, and returns the calls
  made when it ends. An exception that leaves a function is the \<open>Inl\<close> (or \<open>Some\<close>) of
  its outcome.

  \<^verbatim>\<open>_prepare_query\<close> returns the pair \<^verbatim>\<open>(None, None)\<close> when the service cannot be reached,
  and the service with the parameters otherwise.
\<close>

definition prepare_query ::
  "remote \<Rightarrow> GoogleCalendarData \<Rightarrow> call list \<Rightarrow>
     (error + resource option \<times> params option) \<times> call list" where
  "prepare_query rem self log =
     (case service_get rem log of
        Some ServerNotFoundError \<Rightarrow> (Inr (None, None), log @ [ServiceGet])
      | Some (OtherError m) \<Rightarrow> (Inl (OtherError m), log @ [ServiceGet])
      | None \<Rightarrow>
          (let params = DEFAULT_GOOGLE_SEARCH_PARAMS;
               params = params(''calendarId'' \<mapsto> PStr (calendar_id self));
               params = params(''maxResults'' \<mapsto> PInt 100);
               params = (if truthy (search self)
                         then params(''q'' \<mapsto> opt_str (search self))
                         else params)
           in (Inr (Some Resource, Some params), log @ [ServiceGet])))"

definition event_filter :: "GoogleCalendarData \<Rightarrow> event \<Rightarrow> bool" where
  "event_filter self ev =
     (if ignore_availability self then True
      else (case map_of ev TRANSPARENCY of None \<Rightarrow> PStr OPAQUE | Some v \<Rightarrow> v) = PStr OPAQUE)"

text \<open>
  One page: the token is stored in the parameters (the dict is changed in place, so the
  changed parameters are returned too), the request is executed, and the visible items are
  appended to the list. The value is the token of the answer.
\<close>

definition async_get_events_page ::
  "remote \<Rightarrow> GoogleCalendarData \<Rightarrow> params \<Rightarrow> string option \<Rightarrow> event list \<Rightarrow> call list \<Rightarrow>
     (error + string option \<times> event list) \<times> params \<times> call list" where
  "async_get_events_page rem self params page_token event_list log =
     (let params = params(''pageToken'' \<mapsto> opt_str page_token) in
      case list_execute rem log params of
        Inl e \<Rightarrow> (Inl e, params, log @ [EventsList params])
      | Inr res \<Rightarrow>
          (let its = get_items res;
               visible_items = filter (event_filter self) its
           in (Inr (nextPageToken res, event_list @ visible_items),
               params, log @ [EventsList params])))"

text \<open>
  The loop \<^verbatim>\<open>while True: ... if not page_token: break\<close>. The remote service may hand out a
  token with every answer, so the loop need not end: its value is \<open>None\<close> then.
\<close>

partial_function (option) get_events_loop ::
  "remote \<Rightarrow> GoogleCalendarData \<Rightarrow> params \<Rightarrow> string option \<Rightarrow> event list \<Rightarrow> call list \<Rightarrow>
     ((error + event list) \<times> call list) option" where
  "get_events_loop rem self params page_token event_list log =
     (case async_get_events_page rem self params page_token event_list log of
        (Inl e, params', log') \<Rightarrow> Some (Inl e, log')
      | (Inr (page_token', event_list'), params', log') \<Rightarrow>
          if \<not> truthy page_token' then Some (Inr event_list', log')
          else get_events_loop rem self params' page_token' event_list' log')"

definition async_get_events ::
  "remote \<Rightarrow> GoogleCalendarData \<Rightarrow> datetime \<Rightarrow> datetime \<Rightarrow> call list \<Rightarrow>
     ((error + event list) \<times> call list) option" where
  "async_get_events rem self start_date end_date log =
     (case prepare_query rem self log of
        (Inl e, log') \<Rightarrow> Some (Inl e, log')
      | (Inr (service, params), log') \<Rightarrow>
          (case (service, params) of
             (Some sv, Some params) \<Rightarrow>
               (let params = params(''timeMin'' \<mapsto> PStr (isoformat start_date));
                    params = params(''timeMax'' \<mapsto> PStr (isoformat end_date))
                in get_events_loop rem self params None [] log')
           | _ \<Rightarrow> Some (Inr [], log')))"

text \<open>
  The body of \<^verbatim>\<open>GoogleCalendarData.update\<close>, without its decorator. \<open>now\<close> is the value of
  \<^verbatim>\<open>dt.now()\<close>.
\<close>

definition update_method ::
  "remote \<Rightarrow> datetime \<Rightarrow> GoogleCalendarData \<times> call list \<Rightarrow>
     error option \<times> GoogleCalendarData \<times> call list" where
  "update_method rem now = (\<lambda>(self, log).
     (case prepare_query rem self log of
        (Inl e, log') \<Rightarrow> (Some e, self, log')
      | (Inr (service, params), log') \<Rightarrow>
          (case (service, params) of
             (Some sv, Some params) \<Rightarrow>
               (let params = params(''timeMin'' \<mapsto> PStr (isoformat now)) in
                case list_execute rem log' params of
                  Inl e \<Rightarrow> (Some e, self, log' @ [EventsList params])
                | Inr res \<Rightarrow>
                    (let its = get_items res;
                         valid_events = filter (event_filter self) its
                     in (None, self\<lparr>event := next_or_none valid_events\<rparr>,
                         log' @ [EventsList params])))
           | _ \<Rightarrow> (None, self, log'))))"

subsection \<open>The throttled poll\<close>

text \<open>
  Modelled from the spec: the decorator \<^verbatim>\<open>Throttle\<close> of \<^verbatim>\<open>homeassistant.util\<close>, which
  lies outside this module. The spec describes a minimum-interval gate: "at most one
  real remote refresh per configured interval, all intervening calls are no-ops returning
  prior cached value", and "a call after the interval triggers a fresh query". The gate
  keeps the time of the last real run of the method; a call runs the method when there was
  no real run yet or when more than \<open>min_time\<close> has passed since the last one, and does
  nothing otherwise. \<open>utcnow\<close> is the clock of the gate, in microseconds. The spec is silent
  on a run that raises: here the exception leaves the gate as it was.
\<close>

definition gate_open :: "int \<Rightarrow> int option \<Rightarrow> int \<Rightarrow> bool" where
  "gate_open min_time last_run utcnow =
     (case last_run of None \<Rightarrow> True | Some t \<Rightarrow> min_time < utcnow - t)"

definition Throttle ::
  "int \<Rightarrow> ('s \<Rightarrow> error option \<times> 's) \<Rightarrow> int \<Rightarrow> int option \<times> 's \<Rightarrow>
     error option \<times> int option \<times> 's" where
  "Throttle min_time method utcnow = (\<lambda>(last_run, s).
     if gate_open min_time last_run utcnow
     then (case method s of
             (None, s') \<Rightarrow> (None, Some utcnow, s')
           | (Some e, s') \<Rightarrow> (Some e, last_run, s'))
     else (None, last_run, s))"

text \<open>\<^verbatim>\<open>GoogleCalendarData.update\<close> as the module exports it, with its decorator.\<close>

definition GoogleCalendarData_update ::
  "remote \<Rightarrow> int \<Rightarrow> datetime \<Rightarrow> int option \<times> GoogleCalendarData \<times> call list \<Rightarrow>
     error option \<times> int option \<times> GoogleCalendarData \<times> call list" where
  "GoogleCalendarData_update rem utcnow now =
     Throttle MIN_TIME_BETWEEN_UPDATES (update_method rem now) utcnow"

section \<open>GoogleCalendarEventDevice\<close>


text \<open>
  \<^verbatim>\<open>calculate_offset\<close> and \<^verbatim>\<open>is_offset_reached\<close> belong to the calendar component of
  the host; they are parameters here. \<^verbatim>\<open>copy.deepcopy\<close> is the identity on values.
\<close>

definition GoogleCalendarEventDevice_update ::
  "(event \<Rightarrow> string \<Rightarrow> event) \<Rightarrow> (event \<Rightarrow> bool) \<Rightarrow> remote \<Rightarrow> int \<Rightarrow> datetime \<Rightarrow>
     int option \<times> GoogleCalendarEventDevice \<times> call list \<Rightarrow>
     error option \<times> int option \<times> GoogleCalendarEventDevice \<times> call list" where
  "GoogleCalendarEventDevice_update calculate_offset is_offset_reached rem utcnow now =
     (\<lambda>(last_run, dev, log).
        case GoogleCalendarData_update rem utcnow now (last_run, data dev, log) of
          (Some e, last_run', d, log') \<Rightarrow> (Some e, last_run', dev\<lparr>data := d\<rparr>, log')
        | (None, last_run', d, log') \<Rightarrow>
            (case event d of
               None \<Rightarrow> (None, last_run', dev\<lparr>data := d, dev_event := None\<rparr>, log')
             | Some ev \<Rightarrow>
                 (let ev = calculate_offset ev (offset dev) in
                  (None, last_run',
                   dev\<lparr>data := d, offset_reached := is_offset_reached ev, dev_event := Some ev\<rparr>,
                   log'))))"

section \<open>Vocabulary of the properties\<close>

text \<open>
  A run of pages \<open>pages\<close> as the ranged fetch meets it: every page but the last carries a
  continuation token, the last carries none.
\<close>

definition paged :: "result list \<Rightarrow> bool" where
  "paged pages \<longleftrightarrow>
     pages \<noteq> [] \<and> list_all (\<lambda>r. truthy (nextPageToken r)) (butlast pages) \<and>
     \<not> truthy (nextPageToken (last pages))"

text \<open>
  The requests that fetch \<open>pages\<close> one after the other, starting with the token \<open>tok\<close>:
  the parameters \<open>p\<close> with the token of the page before.
\<close>

fun page_requests :: "params \<Rightarrow> string option \<Rightarrow> result list \<Rightarrow> params list" where
  "page_requests p tok [] = []"
| "page_requests p tok (r # rs) =
     p(''pageToken'' \<mapsto> opt_str tok) # page_requests p (nextPageToken r) rs"

text \<open>
  The remote service answers these requests, made after the calls \<open>log\<close>, with \<open>pages\<close>.
\<close>

fun serves :: "remote \<Rightarrow> call list \<Rightarrow> params \<Rightarrow> string option \<Rightarrow> result list \<Rightarrow> bool" where
  "serves rem log p tok [] = True"
| "serves rem log p tok (r # rs) =
     (list_execute rem log (p(''pageToken'' \<mapsto> opt_str tok)) = Inr r \<and>
      serves rem (log @ [EventsList (p(''pageToken'' \<mapsto> opt_str tok))]) p (nextPageToken r) rs)"

subsection \<open>Sample data\<close>

definition ev_busy :: event where
  "ev_busy = [(''summary'', PStr ''standup''), (''transparency'', PStr ''opaque'')]"

definition ev_free :: event where
  "ev_free = [(''summary'', PStr ''lunch''), (''transparency'', PStr ''transparent'')]"

definition ev_plain :: event where
  "ev_plain = [(''summary'', PStr ''review'')]"

definition page1 :: result where
  "page1 = \<lparr>items = Some [ev_free, ev_busy], nextPageToken = Some ''T''\<rparr>"

definition page2 :: result where
  "page2 = \<lparr>items = Some [ev_free, ev_plain], nextPageToken = None\<rparr>"

text \<open>A service that holds two pages, the second one behind the token \<^verbatim>\<open>T\<close>.\<close>

definition two_page_remote :: remote where
  "two_page_remote =
     \<lparr>service_get = (\<lambda>log. None),
      list_execute = (\<lambda>log p. if p ''pageToken'' = Some (PStr ''T'') then Inr page2 else Inr page1)\<rparr>"

text \<open>A service that cannot be reached.\<close>

definition down_remote :: remote where
  "down_remote =
     \<lparr>service_get = (\<lambda>log. Some ServerNotFoundError),
      list_execute = (\<lambda>log p. Inl ServerNotFoundError)\<rparr>"


text \<open>A service whose calendar changes: the first poll sees one event, later polls another.\<close>

definition changing_remote :: remote where
  "changing_remote =
     \<lparr>service_get = (\<lambda>log. None),
      list_execute = (\<lambda>log p.
         if length log \<le> 1 then Inr \<lparr>items = Some [ev_busy], nextPageToken = None\<rparr>
         else Inr \<lparr>items = Some [ev_plain], nextPageToken = None\<rparr>)\<rparr>"

definition cal :: GoogleCalendarData where
  "cal = \<lparr>calendar_id = ''primary'', search = Some ''meeting'',
           ignore_availability = False, event = None\<rparr>"

definition window_start :: datetime where
  "window_start = \<lparr>year = 2024, month = 1, day = 1, hour = 0, minute = 0, second = 0,
                    microsecond = 0, utcoffset = None\<rparr>"

definition window_end :: datetime where
  "window_end = \<lparr>year = 2024, month = 1, day = 2, hour = 0, minute = 0, second = 0,
                  microsecond = 0, utcoffset = None\<rparr>"

text \<open>The parameters that \<open>cal\<close> sends: those of every query, and those of the ranged fetch
  over the window.\<close>

definition cal_params :: params where
  "cal_params = DEFAULT_GOOGLE_SEARCH_PARAMS(''calendarId'' \<mapsto> PStr ''primary'',
     ''maxResults'' \<mapsto> PInt 100, ''q'' \<mapsto> PStr ''meeting'')"

definition cal_query :: params where
  "cal_query = cal_params(''timeMin'' \<mapsto> PStr (isoformat window_start),
     ''timeMax'' \<mapsto> PStr (isoformat window_end))"

text \<open>The parameters of a poll of \<open>cal\<close> at the time \<open>window_start\<close>.\<close>

definition cal_poll :: params where
  "cal_poll = cal_params(''timeMin'' \<mapsto> PStr (isoformat window_start))"

text \<open>A device whose last poll found an event with its offset reached.\<close>

definition dev0 :: GoogleCalendarEventDevice where
  "dev0 = \<lparr>data = cal, dev_event = Some ev_busy, name = ''work'', offset = ''!!'',
            offset_reached = True, entity_id = ''calendar.work''\<rparr>"

text \<open>
  Three polls of \<open>cal\<close> against the changing service, at 0, 10 and 20 minutes on the clock
  of the gate: the states after the first, the second and the third.
\<close>

definition poll1 :: "int option \<times> GoogleCalendarData \<times> call list" where
  "poll1 = snd (GoogleCalendarData_update changing_remote 0 window_start (None, cal, []))"

definition poll2 :: "int option \<times> GoogleCalendarData \<times> call list" where
  "poll2 = snd (GoogleCalendarData_update changing_remote 600000000 window_start poll1)"

definition poll3 :: "int option \<times> GoogleCalendarData \<times> call list" where
  "poll3 = snd (GoogleCalendarData_update changing_remote 1200000000 window_start poll2)"

section \<open>Properties\<close>

subsection \<open>Building the query\<close>

lemma prepare_query_unreachable:
  "service_get rem log = Some ServerNotFoundError \<Longrightarrow>
     prepare_query rem self log = (Inr (None, None), log @ [ServiceGet])"
  by (simp add: prepare_query_def)

lemma prepare_query_reachable:
  "service_get rem log = None \<Longrightarrow>
     \<exists>p. prepare_query rem self log = (Inr (Some Resource, Some p), log @ [ServiceGet])"
  by (simp add: prepare_query_def Let_def)

lemma prepare_query_log:
  "prepare_query rem self log = (r, log') \<Longrightarrow> log' = log @ [ServiceGet]"
  by (auto simp: prepare_query_def Let_def split: option.splits error.splits)

lemma prepared_params:
  assumes "prepare_query rem self log = (Inr (sv, Some p), log')"
  shows "p ''orderBy'' = Some (PStr ''startTime'')
       \<and> p ''singleEvents'' = Some (PBool True)
       \<and> p ''maxResults'' = Some (PInt 100)
       \<and> p ''calendarId'' = Some (PStr (calendar_id self))
       \<and> p ''q'' = (case search self of
                      None \<Rightarrow> None
                    | Some s \<Rightarrow> if s = [] then None else Some (PStr s))"
  using assms
  by (auto simp: prepare_query_def Let_def DEFAULT_GOOGLE_SEARCH_PARAMS_def
      split: option.splits error.splits if_splits)



subsection \<open>The visibility filter\<close>

text \<open>
  Claim C1. The filter keeps an event if and only if \<^verbatim>\<open>ignore_availability\<close> is set or the
  transparency of the event, \<^verbatim>\<open>"opaque"\<close> when the field is absent, equals \<^verbatim>\<open>"opaque"\<close>. So an
  event without the field is kept, and an event with transparency \<^verbatim>\<open>"transparent"\<close> is kept
  only when \<^verbatim>\<open>ignore_availability\<close> is set.
\<close>

theorem event_filter_visible:
  "(event_filter self ev \<longleftrightarrow>
      ignore_availability self \<or>
      (case map_of ev ''transparency'' of None \<Rightarrow> PStr ''opaque'' | Some v \<Rightarrow> v) = PStr ''opaque'')
   \<and> (map_of ev ''transparency'' = None \<longrightarrow> event_filter self ev)
   \<and> (map_of ev ''transparency'' = Some (PStr ''transparent'') \<longrightarrow>
        (event_filter self ev \<longleftrightarrow> ignore_availability self))"
  by (simp add: event_filter_def TRANSPARENCY_def OPAQUE_def split: option.split)

theorem event_filter_visible_witness:
  "map_of ev_plain ''transparency'' = None \<and> event_filter cal ev_plain
   \<and> map_of ev_free ''transparency'' = Some (PStr ''transparent'')
   \<and> \<not> ignore_availability cal \<and> \<not> event_filter cal ev_free
   \<and> event_filter (cal\<lparr>ignore_availability := True\<rparr>) ev_free
   \<and> event_filter cal ev_busy"
  using event_filter_visible [of cal ev_plain] event_filter_visible [of cal ev_free]
    event_filter_visible [of "cal\<lparr>ignore_availability := True\<rparr>" ev_free]
    event_filter_visible [of cal ev_busy]
  by (simp add: ev_plain_def ev_free_def ev_busy_def cal_def)

subsection \<open>A service that cannot be reached\<close>








subsection \<open>The ranged fetch\<close>

lemma replicate_numeral: "replicate (numeral v) x = x # replicate (numeral v - 1) x"
  by (simp add: numeral_eq_Suc)

lemmas iso_defs = isoformat_def fmt_d_def format_time_def format_offset_def dec.simps Let_def
  replicate_numeral

lemma isoformat_window_start: "isoformat window_start = ''2024-01-01T00:00:00''"
  by (simp add: window_start_def iso_defs)

lemma isoformat_window_end: "isoformat window_end = ''2024-01-02T00:00:00''"
  by (simp add: window_end_def iso_defs)

lemma page_requests_upd [simp]:
  "page_requests (p(''pageToken'' \<mapsto> v)) tok rs = page_requests p tok rs"
  by (induction rs arbitrary: tok) simp_all

lemma serves_upd [simp]:
  "serves rem log (p(''pageToken'' \<mapsto> v)) tok rs = serves rem log p tok rs"
  by (induction rs arbitrary: tok log) simp_all

lemma loop_pages:
  assumes "paged pages" and "serves rem log p tok pages"
  shows "get_events_loop rem self p tok acc log =
           Some (Inr (acc @ filter (event_filter self) (concat (map get_items pages))),
                 log @ map EventsList (page_requests p tok pages))"
  using assms
proof (induction pages arbitrary: p tok acc log)
  case Nil
  then show ?case by (simp add: paged_def)
next
  case (Cons r rs)
  let ?q = "p(''pageToken'' \<mapsto> opt_str tok)"
  from Cons.prems have ex: "list_execute rem log ?q = Inr r"
    and sv: "serves rem (log @ [EventsList ?q]) p (nextPageToken r) rs" by simp_all
  show ?case
  proof (cases rs)
    case Nil
    with Cons.prems have "\<not> truthy (nextPageToken r)" by (simp add: paged_def)
    with ex Nil show ?thesis
      by (subst get_events_loop.simps) (simp add: async_get_events_page_def Let_def)
  next
    case (Cons r' rs')
    with Cons.prems have t: "truthy (nextPageToken r)" and pg: "paged rs"
      by (simp_all add: paged_def)
    from sv have sv': "serves rem (log @ [EventsList ?q]) ?q (nextPageToken r) rs" by simp
    have "get_events_loop rem self p tok acc log =
          get_events_loop rem self ?q (nextPageToken r)
            (acc @ filter (event_filter self) (get_items r)) (log @ [EventsList ?q])"
      using ex t by (subst get_events_loop.simps) (simp add: async_get_events_page_def Let_def)
    also have "\<dots> = Some (Inr ((acc @ filter (event_filter self) (get_items r)) @
                   filter (event_filter self) (concat (map get_items rs))),
                 (log @ [EventsList ?q]) @ map EventsList (page_requests ?q (nextPageToken r) rs))"
      by (rule Cons.IH [OF pg sv'])
    finally show ?thesis by simp
  qed
qed

text \<open>
  Claim C2. Let the service be reached, and let it answer the requests of the ranged fetch
  with the pages \<open>pages\<close>, every page but the last carrying a continuation token. Then the
  fetch ends; it has made one request per page, the first without a token and every other
  one with the token of the page before; and it returns the items of all pages, in order,
  that pass the visibility filter.
\<close>

theorem async_get_events_pages:
  assumes "prepare_query rem self log = (Inr (Some sv, Some p), log')"
    and "q = p(''timeMin'' \<mapsto> PStr (isoformat start_date), ''timeMax'' \<mapsto> PStr (isoformat end_date))"
    and "paged pages"
    and "serves rem log' q None pages"
  shows "async_get_events rem self start_date end_date log =
           Some (Inr (filter (event_filter self) (concat (map get_items pages))),
                 log' @ map EventsList (page_requests q None pages))"
  using assms(1,2) loop_pages [OF assms(3,4), of self "[]"]
  by (simp add: async_get_events_def Let_def)

lemma two_page_prepared:
  "prepare_query two_page_remote cal [] = (Inr (Some Resource, Some cal_params), [ServiceGet])"
  by (simp add: prepare_query_def two_page_remote_def cal_def cal_params_def Let_def)

lemma two_page_paged: "paged [page1, page2]"
  by (simp add: paged_def page1_def page2_def)

lemma two_page_serves: "serves two_page_remote [ServiceGet] cal_query None [page1, page2]"
  by (simp add: two_page_remote_def page1_def)

lemma two_page_visible:
  "filter (event_filter cal) (concat (map get_items [page1, page2])) = [ev_busy, ev_plain]"
  by (simp add: get_items_def page1_def page2_def event_filter_def cal_def
      ev_busy_def ev_free_def ev_plain_def TRANSPARENCY_def OPAQUE_def)

lemma two_page_requests:
  "page_requests cal_query None [page1, page2] =
     [cal_query(''pageToken'' \<mapsto> PNone), cal_query(''pageToken'' \<mapsto> PStr ''T'')]"
  by (simp add: page1_def)

lemma two_page_fetch:
  "async_get_events two_page_remote cal window_start window_end [] =
     Some (Inr [ev_busy, ev_plain],
           [ServiceGet, EventsList (cal_query(''pageToken'' \<mapsto> PNone)),
            EventsList (cal_query(''pageToken'' \<mapsto> PStr ''T''))])"
proof -
  have "async_get_events two_page_remote cal window_start window_end [] =
          get_events_loop two_page_remote cal cal_query None [] [ServiceGet]"
    by (simp add: async_get_events_def two_page_prepared cal_query_def)
  also have "\<dots> = Some (Inr ([] @ filter (event_filter cal) (concat (map get_items [page1, page2]))),
                 [ServiceGet] @ map EventsList (page_requests cal_query None [page1, page2]))"
    by (rule loop_pages [OF two_page_paged two_page_serves])
  finally show ?thesis
    unfolding two_page_visible two_page_requests by simp
qed

theorem async_get_events_pages_witness:
  "prepare_query two_page_remote cal [] = (Inr (Some Resource, Some cal_params), [ServiceGet])
   \<and> paged [page1, page2]
   \<and> serves two_page_remote [ServiceGet] cal_query None [page1, page2]
   \<and> async_get_events two_page_remote cal window_start window_end [] =
       Some (Inr [ev_busy, ev_plain],
             [ServiceGet, EventsList (cal_query(''pageToken'' \<mapsto> PNone)),
              EventsList (cal_query(''pageToken'' \<mapsto> PStr ''T''))])"
proof -
  have "async_get_events two_page_remote cal window_start window_end [] =
          Some (Inr (filter (event_filter cal) (concat (map get_items [page1, page2]))),
                [ServiceGet] @ map EventsList (page_requests cal_query None [page1, page2]))"
    by (rule async_get_events_pages
          [OF two_page_prepared cal_query_def two_page_paged two_page_serves])
  then have "async_get_events two_page_remote cal window_start window_end [] =
          Some (Inr [ev_busy, ev_plain],
                [ServiceGet, EventsList (cal_query(''pageToken'' \<mapsto> PNone)),
                 EventsList (cal_query(''pageToken'' \<mapsto> PStr ''T''))])"
    unfolding two_page_visible two_page_requests by simp
  then show ?thesis
    by (intro conjI two_page_prepared two_page_paged two_page_serves)
qed

lemma loop_requests:
  assumes "get_events_loop rem self p tok acc log = Some out"
  shows "\<exists>vs. vs \<noteq> [] \<and> snd out = log @ map (\<lambda>v. EventsList (p(''pageToken'' \<mapsto> v))) vs"
  using assms
proof (induction rem self p tok acc log out
    rule: get_events_loop.raw_induct [rotated 1, consumes 1, case_names step])
  case (step loop rem self p tok acc log out)
  let ?q = "p(''pageToken'' \<mapsto> opt_str tok)"
  show ?case
  proof (cases "list_execute rem log ?q")
    case (Inl e)
    with step(2) have "snd out = log @ map (\<lambda>v. EventsList (p(''pageToken'' \<mapsto> v))) [opt_str tok]"
      by (auto simp: async_get_events_page_def Let_def)
    then show ?thesis by blast
  next
    case (Inr res)
    show ?thesis
    proof (cases "truthy (nextPageToken res)")
      case False
      with Inr step(2) have "snd out = log @ map (\<lambda>v. EventsList (p(''pageToken'' \<mapsto> v))) [opt_str tok]"
        by (auto simp: async_get_events_page_def Let_def)
      then show ?thesis by blast
    next
      case True
      with Inr step(2) have "loop rem self ?q (nextPageToken res)
          (acc @ filter (event_filter self) (get_items res)) (log @ [EventsList ?q]) = Some out"
        by (auto simp: async_get_events_page_def Let_def)
      from step(1) [OF this] obtain vs where
        "snd out = (log @ [EventsList ?q]) @ map (\<lambda>v. EventsList (?q(''pageToken'' \<mapsto> v))) vs"
        by blast
      then have "snd out = log @ map (\<lambda>v. EventsList (p(''pageToken'' \<mapsto> v))) (opt_str tok # vs)"
        by simp
      then show ?thesis by blast
    qed
  qed
qed

lemma async_get_events_requests:
  assumes "service_get rem log = None"
    and "async_get_events rem self start_date end_date log = Some (r, log')"
  shows "\<exists>qs. qs \<noteq> [] \<and> log' = log @ ServiceGet # map EventsList qs \<and>
           (\<forall>q\<in>set qs.
              q ''q'' = (case search self of None \<Rightarrow> None
                         | Some s \<Rightarrow> if s = [] then None else Some (PStr s)) \<and>
              q ''timeMin'' = Some (PStr (isoformat start_date)) \<and>
              q ''timeMax'' = Some (PStr (isoformat end_date)))"
proof -
  from prepare_query_reachable [OF assms(1), of self] obtain p where
    p: "prepare_query rem self log = (Inr (Some Resource, Some p), log @ [ServiceGet])" by blast
  let ?q = "p(''timeMin'' \<mapsto> PStr (isoformat start_date), ''timeMax'' \<mapsto> PStr (isoformat end_date))"
  from p assms(2) have "get_events_loop rem self ?q None [] (log @ [ServiceGet]) = Some (r, log')"
    by (simp add: async_get_events_def Let_def)
  from loop_requests [OF this] obtain vs where vs: "vs \<noteq> []"
    and l: "log' = (log @ [ServiceGet]) @ map (\<lambda>v. EventsList (?q(''pageToken'' \<mapsto> v))) vs"
    by auto
  let ?qs = "map (\<lambda>v. ?q(''pageToken'' \<mapsto> v)) vs"
  have "?qs \<noteq> []" using vs by simp
  moreover have "log' = log @ ServiceGet # map EventsList ?qs"
    using l by (simp add: comp_def)
  moreover have "\<forall>q\<in>set ?qs.
              q ''q'' = (case search self of None \<Rightarrow> None
                         | Some s \<Rightarrow> if s = [] then None else Some (PStr s)) \<and>
              q ''timeMin'' = Some (PStr (isoformat start_date)) \<and>
              q ''timeMax'' = Some (PStr (isoformat end_date))"
    using prepared_params [OF p] by auto
  ultimately show ?thesis by blast
qed

text \<open>
  Claim C8. A ranged fetch with the search \<^verbatim>\<open>meeting\<close> over the window from
  2024-01-01T00:00 to 2024-01-02T00:00 sends requests (at least one) that all carry
  \<^verbatim>\<open>q = "meeting"\<close>, \<^verbatim>\<open>timeMin = "2024-01-01T00:00:00"\<close> and
  \<^verbatim>\<open>timeMax = "2024-01-02T00:00:00"\<close>, the ISO format of the two bounds.
\<close>

theorem async_get_events_query_window:
  assumes "search self = Some ''meeting''"
    and "service_get rem log = None"
    and "async_get_events rem self window_start window_end log = Some (r, log')"
  shows "\<exists>qs. qs \<noteq> [] \<and> log' = log @ ServiceGet # map EventsList qs \<and>
           (\<forall>q\<in>set qs.
              q ''q'' = Some (PStr ''meeting'') \<and>
              q ''timeMin'' = Some (PStr ''2024-01-01T00:00:00'') \<and>
              q ''timeMax'' = Some (PStr ''2024-01-02T00:00:00''))"
  using async_get_events_requests [OF assms(2,3)] assms(1)
  by (simp add: isoformat_window_start isoformat_window_end)

theorem async_get_events_query_window_witness:
  "search cal = Some ''meeting'' \<and> service_get two_page_remote [] = None
   \<and> (\<exists>r log' qs. async_get_events two_page_remote cal window_start window_end [] = Some (r, log')
         \<and> length qs = 2 \<and> log' = ServiceGet # map EventsList qs
         \<and> (\<forall>q\<in>set qs.
              q ''q'' = Some (PStr ''meeting'') \<and>
              q ''timeMin'' = Some (PStr ''2024-01-01T00:00:00'') \<and>
              q ''timeMax'' = Some (PStr ''2024-01-02T00:00:00'')))"
proof -
  have s: "search cal = Some ''meeting''" by (simp add: cal_def)
  have g: "service_get two_page_remote [] = None" by (simp add: two_page_remote_def)
  from async_get_events_query_window [OF s g two_page_fetch] obtain qs where
    l: "[ServiceGet, EventsList (cal_query(''pageToken'' \<mapsto> PNone)),
         EventsList (cal_query(''pageToken'' \<mapsto> PStr ''T''))] = [] @ ServiceGet # map EventsList qs"
    and q: "\<forall>q\<in>set qs.
              q ''q'' = Some (PStr ''meeting'') \<and>
              q ''timeMin'' = Some (PStr ''2024-01-01T00:00:00'') \<and>
              q ''timeMax'' = Some (PStr ''2024-01-02T00:00:00'')"
    by blast
  from l have "length [ServiceGet, EventsList (cal_query(''pageToken'' \<mapsto> PNone)),
         EventsList (cal_query(''pageToken'' \<mapsto> PStr ''T''))] =
         length ([] @ ServiceGet # map EventsList qs)"
    by (rule arg_cong)
  then have n: "length qs = 2" by simp
  from l have l': "[ServiceGet, EventsList (cal_query(''pageToken'' \<mapsto> PNone)),
         EventsList (cal_query(''pageToken'' \<mapsto> PStr ''T''))] = ServiceGet # map EventsList qs"
    by (simp only: append_Nil)
  show ?thesis
    by (intro conjI s g exI [of _ qs] exI, rule two_page_fetch, rule n, rule l', rule q)
qed

subsection \<open>The throttled poll\<close>

lemma next_or_none_filter: "next_or_none (filter P xs) = List.find P xs"
  by (induction xs) simp_all

lemma update_method_poll:
  assumes "prepare_query rem self log = (Inr (Some sv, Some p), log')"
    and "list_execute rem log' (p(''timeMin'' \<mapsto> PStr (isoformat now))) = Inr res"
  shows "update_method rem now (self, log) =
           (None, self\<lparr>event := List.find (event_filter self) (get_items res)\<rparr>,
            log' @ [EventsList (p(''timeMin'' \<mapsto> PStr (isoformat now)))])"
  using assms by (simp add: update_method_def Let_def next_or_none_filter)

lemma update_method_requests:
  assumes "service_get rem log = None"
  shows "\<exists>r self' q. update_method rem now (self, log) = (r, self', log @ [ServiceGet, EventsList q])
           \<and> q ''timeMin'' = Some (PStr (isoformat now))"
proof -
  from prepare_query_reachable [OF assms, of self] obtain p where
    p: "prepare_query rem self log = (Inr (Some Resource, Some p), log @ [ServiceGet])" by blast
  let ?q = "p(''timeMin'' \<mapsto> PStr (isoformat now))"
  have "\<exists>r self'. update_method rem now (self, log) = (r, self', log @ [ServiceGet, EventsList ?q])"
    using p by (cases "list_execute rem (log @ [ServiceGet]) ?q")
      (simp_all add: update_method_def Let_def)
  moreover have "?q ''timeMin'' = Some (PStr (isoformat now))" by simp
  ultimately show ?thesis by blast
qed

lemma update_method_log:
  "\<exists>r self' rest. update_method rem now (self, log) = (r, self', log @ ServiceGet # rest)"
proof (cases "service_get rem log")
  case None
  from update_method_requests [OF this, of now self] show ?thesis by auto
next
  case (Some e)
  then show ?thesis
    by (cases e) (simp_all add: update_method_def prepare_query_def)
qed

lemma throttle_open:
  "gate_open m last_run utcnow \<Longrightarrow>
     Throttle m method utcnow (last_run, s) =
       (case method s of (None, s') \<Rightarrow> (None, Some utcnow, s')
                       | (Some e, s') \<Rightarrow> (Some e, last_run, s'))"
  by (simp add: Throttle_def)

lemma throttle_closed:
  "\<not> gate_open m last_run utcnow \<Longrightarrow> Throttle m method utcnow (last_run, s) = (None, last_run, s)"
  by (simp add: Throttle_def)

lemma two_page_poll:
  "GoogleCalendarData_update two_page_remote 0 window_start (None, cal, []) =
     (None, Some 0, cal\<lparr>event := Some ev_busy\<rparr>, [ServiceGet, EventsList cal_poll])"
proof -
  have e: "list_execute two_page_remote [ServiceGet]
             (cal_params(''timeMin'' \<mapsto> PStr (isoformat window_start))) = Inr page1"
    by (simp add: two_page_remote_def cal_params_def DEFAULT_GOOGLE_SEARCH_PARAMS_def)
  have f: "List.find (event_filter cal) (get_items page1) = Some ev_busy"
    by (simp add: get_items_def page1_def event_filter_def cal_def
        ev_busy_def ev_free_def TRANSPARENCY_def OPAQUE_def)
  from update_method_poll [OF two_page_prepared e] f show ?thesis
    by (simp add: GoogleCalendarData_update_def throttle_open gate_open_def cal_poll_def)
qed

text \<open>
  Claim C5. Take a call of \<^verbatim>\<open>update()\<close> that the gate lets through, with the service reached
  and the one request answered by \<open>res\<close>. The request carries \<^verbatim>\<open>timeMin\<close>, the ISO format of
  the current time \<open>now\<close>, and the cached event becomes the first item of \<open>res\<close> that passes
  the visibility filter, \<open>None\<close> when no item passes; the other items are dropped.
\<close>

theorem update_next_event:
  assumes "gate_open MIN_TIME_BETWEEN_UPDATES last_run utcnow"
    and "prepare_query rem self log = (Inr (Some sv, Some p), log')"
    and "q = p(''timeMin'' \<mapsto> PStr (isoformat now))"
    and "list_execute rem log' q = Inr res"
  shows "GoogleCalendarData_update rem utcnow now (last_run, self, log) =
           (None, Some utcnow,
            self\<lparr>event := List.find (event_filter self) (get_items res)\<rparr>,
            log' @ [EventsList q])
       \<and> q ''timeMin'' = Some (PStr (isoformat now))"
  using assms(3) update_method_poll [OF assms(2), of now res] assms(4)
  by (simp add: GoogleCalendarData_update_def throttle_open [OF assms(1)])

theorem update_next_event_witness:
  "gate_open MIN_TIME_BETWEEN_UPDATES None 0
   \<and> prepare_query two_page_remote cal [] = (Inr (Some Resource, Some cal_params), [ServiceGet])
   \<and> list_execute two_page_remote [ServiceGet] cal_poll = Inr page1
   \<and> get_items page1 = [ev_free, ev_busy]
   \<and> GoogleCalendarData_update two_page_remote 0 window_start (None, cal, []) =
       (None, Some 0, cal\<lparr>event := Some ev_busy\<rparr>, [ServiceGet, EventsList cal_poll])
   \<and> cal_poll ''timeMin'' = Some (PStr ''2024-01-01T00:00:00'')"
proof -
  have g: "gate_open MIN_TIME_BETWEEN_UPDATES None 0" by (simp add: gate_open_def)
  have e: "list_execute two_page_remote [ServiceGet] cal_poll = Inr page1"
    by (simp add: two_page_remote_def cal_poll_def cal_params_def DEFAULT_GOOGLE_SEARCH_PARAMS_def)
  have f: "List.find (event_filter cal) (get_items page1) = Some ev_busy"
    by (simp add: get_items_def page1_def event_filter_def cal_def
        ev_busy_def ev_free_def TRANSPARENCY_def OPAQUE_def)
  have i: "get_items page1 = [ev_free, ev_busy]" by (simp add: get_items_def page1_def)
  from update_next_event [OF g two_page_prepared cal_poll_def e] f
  have "GoogleCalendarData_update two_page_remote 0 window_start (None, cal, []) =
       (None, Some 0, cal\<lparr>event := Some ev_busy\<rparr>, [ServiceGet, EventsList cal_poll])"
    and "cal_poll ''timeMin'' = Some (PStr ''2024-01-01T00:00:00'')"
    by (simp_all add: isoformat_window_start)
  with g two_page_prepared e i show ?thesis by (intro conjI)
qed

text \<open>
  Claim C9. A call of \<^verbatim>\<open>update()\<close> that the gate lets through and that reaches the service
  makes exactly one page request, whatever the answer is: an answer that carries a
  \<^verbatim>\<open>nextPageToken\<close> is not followed up.
\<close>

theorem update_single_page_request:
  assumes "gate_open MIN_TIME_BETWEEN_UPDATES last_run utcnow"
    and "service_get rem log = None"
  shows "\<exists>r last_run' self' q.
           GoogleCalendarData_update rem utcnow now (last_run, self, log) =
             (r, last_run', self', log @ [ServiceGet, EventsList q])"
proof -
  from update_method_requests [OF assms(2), of now self] obtain r self' q where
    "update_method rem now (self, log) = (r, self', log @ [ServiceGet, EventsList q])" by blast
  then show ?thesis
    by (cases r) (simp_all add: GoogleCalendarData_update_def throttle_open [OF assms(1)])
qed

theorem update_single_page_request_witness:
  "gate_open MIN_TIME_BETWEEN_UPDATES None 0 \<and> service_get two_page_remote [] = None
   \<and> (\<exists>r last_run' self' q.
         GoogleCalendarData_update two_page_remote 0 window_start (None, cal, []) =
           (r, last_run', self', [ServiceGet, EventsList q])
         \<and> list_execute two_page_remote [ServiceGet] q = Inr page1)
   \<and> truthy (nextPageToken page1)"
proof -
  have g: "gate_open MIN_TIME_BETWEEN_UPDATES None 0" by (simp add: gate_open_def)
  have s: "service_get two_page_remote [] = None" by (simp add: two_page_remote_def)
  have t: "truthy (nextPageToken page1)" by (simp add: page1_def)
  from update_single_page_request [OF g s, of window_start cal] obtain r l c q where
    u: "GoogleCalendarData_update two_page_remote 0 window_start (None, cal, []) =
          (r, l, c, [] @ [ServiceGet, EventsList q])" by blast
  with two_page_poll have "q = cal_poll" by simp
  then have e: "list_execute two_page_remote [ServiceGet] q = Inr page1"
    by (simp add: two_page_remote_def cal_poll_def cal_params_def DEFAULT_GOOGLE_SEARCH_PARAMS_def)
  from u have u': "GoogleCalendarData_update two_page_remote 0 window_start (None, cal, []) =
          (r, l, c, [ServiceGet, EventsList q])" by (simp only: append_Nil)
  show ?thesis
    by (intro conjI g s t exI [of _ r] exI [of _ l] exI [of _ c] exI [of _ q] u' e)
qed

lemma changing_prepared:
  "prepare_query changing_remote (cal\<lparr>event := e\<rparr>) log =
     (Inr (Some Resource, Some cal_params), log @ [ServiceGet])"
  by (simp add: prepare_query_def changing_remote_def cal_def cal_params_def Let_def)

lemma changing_first:
  "GoogleCalendarData_update changing_remote 0 window_start (None, cal, []) =
     (None, Some 0, cal\<lparr>event := Some ev_busy\<rparr>, [ServiceGet, EventsList cal_poll])"
proof -
  have c: "cal\<lparr>event := None\<rparr> = cal" by (simp add: cal_def)
  have e: "list_execute changing_remote ([] @ [ServiceGet])
             (cal_params(''timeMin'' \<mapsto> PStr (isoformat window_start))) =
           Inr \<lparr>items = Some [ev_busy], nextPageToken = None\<rparr>"
    by (simp add: changing_remote_def)
  have f: "List.find (event_filter cal) [ev_busy] = Some ev_busy"
    by (simp add: event_filter_def cal_def ev_busy_def TRANSPARENCY_def OPAQUE_def)
  from update_method_poll [OF changing_prepared [of None "[]", unfolded c] e] f show ?thesis
    by (simp add: GoogleCalendarData_update_def throttle_open gate_open_def cal_poll_def
        get_items_def)
qed

lemma poll1_eq: "poll1 = (Some 0, cal\<lparr>event := Some ev_busy\<rparr>, [ServiceGet, EventsList cal_poll])"
  by (simp add: poll1_def changing_first)

lemma poll2_eq: "poll2 = (Some 0, cal\<lparr>event := Some ev_busy\<rparr>, [ServiceGet, EventsList cal_poll])"
  by (simp add: poll2_def poll1_eq GoogleCalendarData_update_def throttle_closed gate_open_def
      MIN_TIME_BETWEEN_UPDATES_def)

lemma poll3_eq:
  "poll3 = (Some 1200000000, cal\<lparr>event := Some ev_plain\<rparr>,
            [ServiceGet, EventsList cal_poll, ServiceGet, EventsList cal_poll])"
proof -
  let ?log = "[ServiceGet, EventsList cal_poll]"
  have e: "list_execute changing_remote (?log @ [ServiceGet])
             (cal_params(''timeMin'' \<mapsto> PStr (isoformat window_start))) =
           Inr \<lparr>items = Some [ev_plain], nextPageToken = None\<rparr>"
    by (simp add: changing_remote_def)
  have f: "List.find (event_filter (cal\<lparr>event := Some ev_busy\<rparr>)) [ev_plain] = Some ev_plain"
    by (simp add: event_filter_def cal_def ev_plain_def TRANSPARENCY_def OPAQUE_def)
  have g: "gate_open MIN_TIME_BETWEEN_UPDATES (Some 0) 1200000000"
    by (simp add: gate_open_def MIN_TIME_BETWEEN_UPDATES_def)
  from update_method_poll [OF changing_prepared [of "Some ev_busy" ?log] e] f
  show ?thesis
    by (simp add: poll3_def poll2_eq GoogleCalendarData_update_def throttle_open [OF g]
        cal_poll_def get_items_def)
qed

text \<open>
  Claim C7, as stated, fails. Three polls at 0, 10 and 20 minutes: the second is throttled,
  the third is not, since the gate counts from the last real poll, at 0. So the polls at 10
  and 20 minutes are less than 15 minutes apart, and yet the later one queries the service
  and caches another event.
\<close>

theorem throttle_pair_counterexample:
  "\<not> ((1200000000::int) - 600000000 < MIN_TIME_BETWEEN_UPDATES \<longrightarrow>
        snd (snd poll3) = snd (snd poll2) \<and> event (fst (snd poll3)) = event (fst (snd poll2)))"
  by (simp add: poll2_eq poll3_eq MIN_TIME_BETWEEN_UPDATES_def)

text \<open>
  Claim C7, as amended. Let a call of \<^verbatim>\<open>update()\<close> at \<open>t1\<close> pass the gate and return. A
  call at \<open>t2\<close>, no more than the minimum interval later, makes no remote call and leaves
  the cached event, and the whole state, as the first call left it. A call more than the
  interval later contacts the service again, and queries it once, from the new current
  time, when the service is reached.
\<close>

theorem throttle_gate:
  assumes "gate_open MIN_TIME_BETWEEN_UPDATES last0 t1"
    and "GoogleCalendarData_update rem t1 now1 (last0, self0, log0) = (None, last1, self1, log1)"
  shows "(t2 - t1 \<le> MIN_TIME_BETWEEN_UPDATES \<longrightarrow>
            GoogleCalendarData_update rem2 t2 now2 (last1, self1, log1) = (None, last1, self1, log1))
       \<and> (MIN_TIME_BETWEEN_UPDATES < t2 - t1 \<longrightarrow>
            (\<exists>r last2 self2 rest.
               GoogleCalendarData_update rem2 t2 now2 (last1, self1, log1) =
                 (r, last2, self2, log1 @ ServiceGet # rest)
               \<and> (service_get rem2 log1 = None \<longrightarrow>
                    (\<exists>q. rest = [EventsList q] \<and> q ''timeMin'' = Some (PStr (isoformat now2))))))"
proof -
  from assms have l: "last1 = Some t1"
    by (auto simp: GoogleCalendarData_update_def throttle_open split: prod.splits option.splits)
  have a: "t2 - t1 \<le> MIN_TIME_BETWEEN_UPDATES \<Longrightarrow>
      GoogleCalendarData_update rem2 t2 now2 (last1, self1, log1) = (None, last1, self1, log1)"
    unfolding l GoogleCalendarData_update_def
    by (rule throttle_closed) (simp add: gate_open_def)
  have b: "\<exists>r last2 self2 rest.
               GoogleCalendarData_update rem2 t2 now2 (last1, self1, log1) =
                 (r, last2, self2, log1 @ ServiceGet # rest)
               \<and> (service_get rem2 log1 = None \<longrightarrow>
                    (\<exists>q. rest = [EventsList q] \<and> q ''timeMin'' = Some (PStr (isoformat now2))))"
    if o: "MIN_TIME_BETWEEN_UPDATES < t2 - t1"
  proof -
    from o have g: "gate_open MIN_TIME_BETWEEN_UPDATES last1 t2" by (simp add: l gate_open_def)
    show ?thesis
    proof (cases "service_get rem2 log1")
      case None
      from update_method_requests [OF None, of now2 self1] obtain r self' q where
        "update_method rem2 now2 (self1, log1) = (r, self', log1 @ [ServiceGet, EventsList q])"
        and "q ''timeMin'' = Some (PStr (isoformat now2))" by blast
      then show ?thesis
        by (cases r) (simp_all add: GoogleCalendarData_update_def throttle_open [OF g])
    next
      case (Some e)
      from update_method_log [of rem2 now2 self1 log1] obtain r self' rest where
        "update_method rem2 now2 (self1, log1) = (r, self', log1 @ ServiceGet # rest)" by blast
      with Some show ?thesis
        by (cases r) (simp_all add: GoogleCalendarData_update_def throttle_open [OF g])
    qed
  qed
  from a b show ?thesis by blast
qed

theorem throttle_gate_witness:
  "gate_open MIN_TIME_BETWEEN_UPDATES None 0
   \<and> GoogleCalendarData_update changing_remote 0 window_start (None, cal, []) = (None, poll1)
   \<and> (600000000::int) - 0 \<le> MIN_TIME_BETWEEN_UPDATES
   \<and> GoogleCalendarData_update changing_remote 600000000 window_start poll1 = (None, poll1)
   \<and> MIN_TIME_BETWEEN_UPDATES < (1000000000::int) - 0
   \<and> service_get changing_remote (snd (snd poll1)) = None
   \<and> (\<exists>r last2 self2 q.
         GoogleCalendarData_update changing_remote 1000000000 window_start poll1 =
           (r, last2, self2, snd (snd poll1) @ [ServiceGet, EventsList q])
         \<and> q ''timeMin'' = Some (PStr (isoformat window_start)))"
proof -
  let ?s = "cal\<lparr>event := Some ev_busy\<rparr>" and ?l = "[ServiceGet, EventsList cal_poll]"
  have g: "gate_open MIN_TIME_BETWEEN_UPDATES None 0" by (simp add: gate_open_def)
  have a: "(600000000::int) - 0 \<le> MIN_TIME_BETWEEN_UPDATES"
    and b: "MIN_TIME_BETWEEN_UPDATES < (1000000000::int) - 0"
    by (simp_all add: MIN_TIME_BETWEEN_UPDATES_def)
  have sg: "service_get changing_remote ?l = None" by (simp add: changing_remote_def)
  note th = throttle_gate [OF g changing_first, of _ changing_remote window_start]
  from th [of 600000000] a
  have c: "GoogleCalendarData_update changing_remote 600000000 window_start (Some 0, ?s, ?l) =
             (None, Some 0, ?s, ?l)" by blast
  from th [of 1000000000] b sg obtain r last2 self2 q where
    d: "GoogleCalendarData_update changing_remote 1000000000 window_start (Some 0, ?s, ?l) =
          (r, last2, self2, ?l @ ServiceGet # [EventsList q])"
    and q: "q ''timeMin'' = Some (PStr (isoformat window_start))" by blast
  have sg': "service_get changing_remote (snd (snd poll1)) = None"
    unfolding poll1_eq using sg by simp
  have d': "GoogleCalendarData_update changing_remote 1000000000 window_start poll1 =
          (r, last2, self2, snd (snd poll1) @ [ServiceGet, EventsList q])"
    unfolding poll1_eq using d by simp
  have c': "GoogleCalendarData_update changing_remote 600000000 window_start poll1 = (None, poll1)"
    unfolding poll1_eq using c by simp
  have f': "GoogleCalendarData_update changing_remote 0 window_start (None, cal, []) = (None, poll1)"
    unfolding poll1_eq using changing_first by simp
  show ?thesis
    by (intro conjI g f' a c' b sg' exI [of _ r] exI [of _ last2] exI [of _ self2] exI [of _ q] d' q)
qed

subsection \<open>The device\<close>

text \<open>
  Claim C10. When \<^verbatim>\<open>GoogleCalendarEventDevice.update()\<close> returns and the cached event of the
  data object is \<open>None\<close>, the event of the device is \<open>None\<close> and \<open>offset_reached\<close> keeps its
  former value. With a cached event the flag is computed from that event, with its offset
  applied; and the flag changes in no other case.
\<close>

theorem device_update_offset_reached:
  assumes "GoogleCalendarEventDevice_update calculate_offset is_offset_reached rem utcnow now
             (last_run, dev, log) = (r, last_run', dev', log')"
  shows "(r = None \<and> event (data dev') = None \<longrightarrow>
            dev_event dev' = None \<and> offset_reached dev' = offset_reached dev)
       \<and> (\<forall>ev. r = None \<and> event (data dev') = Some ev \<longrightarrow>
            dev_event dev' = Some (calculate_offset ev (offset dev)) \<and>
            offset_reached dev' = is_offset_reached (calculate_offset ev (offset dev)))
       \<and> (offset_reached dev' \<noteq> offset_reached dev \<longrightarrow>
            r = None \<and> event (data dev') \<noteq> None)"
  using assms
  by (auto simp: GoogleCalendarEventDevice_update_def Let_def
      split: prod.splits option.splits)

theorem device_update_offset_reached_witness:
  "GoogleCalendarEventDevice_update (\<lambda>ev off. ev) (\<lambda>ev. False) down_remote 0 window_start
     (None, dev0, []) = (None, Some 0, dev0\<lparr>dev_event := None\<rparr>, [ServiceGet])
   \<and> event (data (dev0\<lparr>dev_event := None\<rparr>)) = None
   \<and> dev_event dev0 = Some ev_busy \<and> dev_event (dev0\<lparr>dev_event := None\<rparr>) = None
   \<and> offset_reached dev0 \<and> offset_reached (dev0\<lparr>dev_event := None\<rparr>)
   \<and> GoogleCalendarEventDevice_update (\<lambda>ev off. ev) (\<lambda>ev. False) changing_remote 0 window_start
       (None, dev0, []) =
         (None, Some 0,
          dev0\<lparr>data := cal\<lparr>event := Some ev_busy\<rparr>, offset_reached := False\<rparr>,
          [ServiceGet, EventsList cal_poll])
   \<and> event (data (dev0\<lparr>data := cal\<lparr>event := Some ev_busy\<rparr>, offset_reached := False\<rparr>)) =
       Some ev_busy
   \<and> \<not> offset_reached (dev0\<lparr>data := cal\<lparr>event := Some ev_busy\<rparr>, offset_reached := False\<rparr>)"
proof -
  have h: "service_get down_remote [] = Some ServerNotFoundError" by (simp add: down_remote_def)
  have u: "GoogleCalendarEventDevice_update (\<lambda>ev off. ev) (\<lambda>ev. False) down_remote 0 window_start
     (None, dev0, []) = (None, Some 0, dev0\<lparr>dev_event := None\<rparr>, [ServiceGet])"
    by (simp add: GoogleCalendarEventDevice_update_def GoogleCalendarData_update_def
        throttle_open gate_open_def update_method_def prepare_query_unreachable [OF h]
        dev0_def cal_def)
  have d: "data dev0 = cal" by (simp add: dev0_def)
  have v: "GoogleCalendarEventDevice_update (\<lambda>ev off. ev) (\<lambda>ev. False) changing_remote 0 window_start
       (None, dev0, []) =
         (None, Some 0,
          dev0\<lparr>data := cal\<lparr>event := Some ev_busy\<rparr>, offset_reached := False\<rparr>,
          [ServiceGet, EventsList cal_poll])"
    by (simp add: GoogleCalendarEventDevice_update_def d changing_first) (simp add: dev0_def)
  from device_update_offset_reached [OF u] device_update_offset_reached [OF v] u v
  show ?thesis
    by (simp add: dev0_def cal_def)
qed

end
